theory Spec2Isabelle
  imports Complex_Main
begin

section \<open>Conway's Game of Life canvas demo (components/render-homepage-code.tsx, ConwayGame)\<close>

text \<open>
  The component's effect body closes over two constants, \<open>height\<close> and \<open>width\<close>, and one
  mutable variable \<open>grid\<close> of TypeScript type \<open>number[][]\<close>. \<open>height\<close> and \<open>width\<close> are
  parameters of every function that reads them from the closure. The functions are modelled
  twice: on values, where an array of numbers is an \<open>int list\<close>, and, for \<open>update\<close>, on a store
  of array objects, where a grid is a reference and a write changes the object referred to.
\<close>

subsection \<open>Reading a cell\<close>

text \<open>
  \<open>grid[r][c]\<close>. JavaScript throws a TypeError when \<open>grid[r]\<close> is undefined (no such row)
  and yields \<open>undefined\<close> when the row exists but has no index \<open>c\<close>; arithmetic on it gives
  NaN. Both leave the type \<open>number[][]\<close>; the model stops there with a fault.
\<close>

datatype fault = TypeError | NotANumber

type_synonym grid = "int list list"

definition cell :: "grid \<Rightarrow> int \<Rightarrow> int \<Rightarrow> fault + int" where
  "cell grid r c =
     (if 0 \<le> r \<and> nat r < length grid then
        (if 0 \<le> c \<and> nat c < length (grid ! nat r) then Inr (grid ! nat r ! nat c)
         else Inl NotANumber)
      else Inl TypeError)"

subsection \<open>countAliveNeighbors\<close>

text \<open>
  One pass of the inner loop body for the offsets \<open>i\<close>, \<open>j\<close>; \<open>rd\<close> is the read
  \<open>grid[x + i][y + j]\<close>. The bounds test is against the closure's \<open>height\<close> and
  \<open>width\<close>, not against the lengths of the arrays.
\<close>

definition count_step ::
  "(int \<Rightarrow> int \<Rightarrow> fault + int) \<Rightarrow> nat \<Rightarrow> nat \<Rightarrow> int \<Rightarrow> int \<Rightarrow> int \<Rightarrow> int \<Rightarrow> fault + int \<Rightarrow> fault + int" where
  "count_step rd height width x y i j acc =
     (case acc of
        Inl e \<Rightarrow> Inl e
      | Inr count \<Rightarrow>
          if i = 0 \<and> j = 0 then Inr count
          else if x + i \<ge> 0 \<and> x + i < int height \<and> y + j \<ge> 0 \<and> y + j < int width then
            (case rd (x + i) (y + j) of Inl e \<Rightarrow> Inl e | Inr v \<Rightarrow> Inr (count + v))
          else Inr count)"

text \<open>The two nested loops \<open>for (let i = -1; i <= 1; i++) for (let j = -1; j <= 1; j++)\<close>.\<close>

definition count_loop ::
  "(int \<Rightarrow> int \<Rightarrow> fault + int) \<Rightarrow> nat \<Rightarrow> nat \<Rightarrow> int \<Rightarrow> int \<Rightarrow> fault + int" where
  "count_loop rd height width x y =
     fold (\<lambda>i. fold (count_step rd height width x y i) [- 1, 0, 1]) [- 1, 0, 1] (Inr 0)"

definition countAliveNeighbors :: "nat \<Rightarrow> nat \<Rightarrow> grid \<Rightarrow> int \<Rightarrow> int \<Rightarrow> fault + int" where
  "countAliveNeighbors height width grid x y = count_loop (cell grid) height width x y"

subsection \<open>update\<close>

text \<open>The three-way branch of \<open>update\<close> on the cell's value and its neighbour count.\<close>

definition next_state :: "int \<Rightarrow> int \<Rightarrow> int" where
  "next_state cur neighbors =
     (if cur = 0 \<and> neighbors = 3 then 1
      else if cur = 1 \<and> (neighbors < 2 \<or> neighbors > 3) then 0
      else cur)"

text \<open>
  \<open>newGrid[i][j] = v\<close>. The loops of \<open>update\<close> only write at \<open>i < height\<close>, \<open>j < width\<close>
  into an array built with these dimensions, so the write never extends an array.
\<close>

definition set_cell :: "grid \<Rightarrow> nat \<Rightarrow> nat \<Rightarrow> int \<Rightarrow> grid" where
  "set_cell newGrid i j v = newGrid[i := (newGrid ! i)[j := v]]"

definition update_cell :: "nat \<Rightarrow> nat \<Rightarrow> grid \<Rightarrow> nat \<Rightarrow> nat \<Rightarrow> fault + grid \<Rightarrow> fault + grid" where
  "update_cell height width grid i j acc =
     (case acc of
        Inl e \<Rightarrow> Inl e
      | Inr newGrid \<Rightarrow>
          (case countAliveNeighbors height width grid (int i) (int j) of
             Inl e \<Rightarrow> Inl e
           | Inr neighbors \<Rightarrow>
               (case cell grid (int i) (int j) of
                  Inl e \<Rightarrow> Inl e
                | Inr cur \<Rightarrow> Inr (set_cell newGrid i j (next_state cur neighbors)))))"

definition update :: "nat \<Rightarrow> nat \<Rightarrow> grid \<Rightarrow> fault + grid" where
  "update height width grid =
     fold (\<lambda>i. fold (update_cell height width grid i) [0..<width]) [0..<height]
       (Inr (replicate height (replicate width 0)))"

subsection \<open>Well-formed grids\<close>

text \<open>
  What the component maintains: \<open>grid\<close> has \<open>height\<close> rows of \<open>width\<close> cells, each 0 (dead)
  or 1 (alive).
\<close>

definition has_dims :: "nat \<Rightarrow> nat \<Rightarrow> grid \<Rightarrow> bool" where
  "has_dims height width grid \<longleftrightarrow>
     length grid = height \<and> list_all (\<lambda>row. length row = width) grid"

definition binary_grid :: "nat \<Rightarrow> nat \<Rightarrow> grid \<Rightarrow> bool" where
  "binary_grid height width grid \<longleftrightarrow>
     has_dims height width grid \<and> list_all (list_all (\<lambda>v. v = 0 \<or> v = 1)) grid"

text \<open>The state of the cell at an integer coordinate, 0 outside the grid.\<close>

definition state_at :: "nat \<Rightarrow> nat \<Rightarrow> grid \<Rightarrow> int \<Rightarrow> int \<Rightarrow> int" where
  "state_at height width grid r c =
     (if 0 \<le> r \<and> r < int height \<and> 0 \<le> c \<and> c < int width then grid ! nat r ! nat c else 0)"

definition live_around :: "nat \<Rightarrow> nat \<Rightarrow> grid \<Rightarrow> int \<Rightarrow> int \<Rightarrow> int" where
  "live_around height width grid x y =
     state_at height width grid (x - 1) (y - 1) + state_at height width grid (x - 1) y
       + state_at height width grid (x - 1) (y + 1)
       + state_at height width grid x (y - 1) + state_at height width grid x (y + 1)
       + state_at height width grid (x + 1) (y - 1) + state_at height width grid (x + 1) y
       + state_at height width grid (x + 1) (y + 1)"

text \<open>
  The value \<open>update\<close> stores at row \<open>i\<close>, column \<open>j\<close> of a grid with the closure's dimensions.
\<close>

definition next_cell :: "nat \<Rightarrow> nat \<Rightarrow> grid \<Rightarrow> nat \<Rightarrow> nat \<Rightarrow> int" where
  "next_cell height width grid i j =
     next_state (grid ! i ! j) (live_around height width grid (int i) (int j))"

text \<open>The eight coordinates horizontally, vertically and diagonally adjacent to \<open>(x, y)\<close>.\<close>

definition adjacent8 :: "int \<Rightarrow> int \<Rightarrow> (int \<times> int) set" where
  "adjacent8 x y = {(x - 1, y - 1), (x - 1, y), (x - 1, y + 1), (x, y - 1), (x, y + 1),
     (x + 1, y - 1), (x + 1, y), (x + 1, y + 1)}"

subsection \<open>Patterns\<close>

text \<open>
  Test grids: the \<open>height \<times> width\<close> grid whose alive cells are the in-range coordinates that
  satisfy \<open>alive\<close>.
\<close>

definition pattern :: "nat \<Rightarrow> nat \<Rightarrow> (int \<Rightarrow> int \<Rightarrow> bool) \<Rightarrow> grid" where
  "pattern height width alive =
     map (\<lambda>i. map (\<lambda>j. if alive (int i) (int j) then 1 else 0) [0..<width]) [0..<height]"

text \<open>The 2\<times>2 square of alive cells with top-left corner \<open>(r0, c0)\<close>, all else dead.\<close>

definition block :: "nat \<Rightarrow> nat \<Rightarrow> nat \<Rightarrow> nat \<Rightarrow> grid" where
  "block height width r0 c0 =
     pattern height width
       (\<lambda>r c. (r = int r0 \<or> r = int r0 + 1) \<and> (c = int c0 \<or> c = int c0 + 1))"

text \<open>
  Three alive cells in a row centred at \<open>(r0, c0)\<close>, all else dead, and the same three cells in a
  column.
\<close>

definition blinker_row :: "nat \<Rightarrow> nat \<Rightarrow> nat \<Rightarrow> nat \<Rightarrow> grid" where
  "blinker_row height width r0 c0 =
     pattern height width (\<lambda>r c. r = int r0 \<and> (c = int c0 - 1 \<or> c = int c0 \<or> c = int c0 + 1))"

definition blinker_col :: "nat \<Rightarrow> nat \<Rightarrow> nat \<Rightarrow> nat \<Rightarrow> grid" where
  "blinker_col height width r0 c0 =
     pattern height width (\<lambda>r c. c = int c0 \<and> (r = int r0 - 1 \<or> r = int r0 \<or> r = int r0 + 1))"

subsection \<open>The component: canvas, timer tick and resize\<close>

text \<open>
  The calls \<open>draw\<close> makes on the 2D context: \<open>clearRect(x, y, w, h)\<close>, the assignment
  \<open>fillStyle = colour\<close> and \<open>fillRect(x, y, w, h)\<close>.
\<close>

datatype ctx_call = ClearRect int int int int | FillStyle string | FillRect int int int int

text \<open>
  What the effect body's closures share: the canvas element's \<open>width\<close> and \<open>height\<close>
  attributes, the constants \<open>width\<close> and \<open>height\<close>, the variable \<open>grid\<close>, and the calls made
  on \<open>ctx\<close> so far, oldest first.
\<close>

record closure =
  canvas_width :: nat
  canvas_height :: nat
  const_width :: nat
  const_height :: nat
  var_grid :: grid
  ctx_calls :: "ctx_call list"

definition cellSize :: nat where
  "cellSize = 5"

text \<open>
  \<open>updateCanvasSize\<close>, also the listener of the window's \<open>resize\<close> event; \<open>innerWidth\<close> is
  \<open>window.innerWidth\<close> at the call.
\<close>

definition updateCanvasSize :: "nat \<Rightarrow> closure \<Rightarrow> closure" where
  "updateCanvasSize innerWidth s = s\<lparr>canvas_width := innerWidth, canvas_height := 100\<rparr>"

text \<open>\<open>Math.ceil(a / cellSize)\<close> for a canvas dimension \<open>a\<close>.\<close>

definition cells_across :: "nat \<Rightarrow> nat" where
  "cells_across a = nat \<lceil>real a / real cellSize\<rceil>"

text \<open>
  The effect body up to the initial grid. \<open>canvas\<close> and \<open>ctx\<close> tell whether
  \<open>canvasRef.current\<close> and \<open>canvas.getContext('2d')\<close> are non-null; the body returns early
  when one is null. \<open>coin i j\<close> tells whether \<open>Math.round(Math.random())\<close> gave 1 for row
  \<open>i\<close>, column \<open>j\<close>.
\<close>

definition mount :: "bool \<Rightarrow> bool \<Rightarrow> nat \<Rightarrow> (nat \<Rightarrow> nat \<Rightarrow> bool) \<Rightarrow> closure option" where
  "mount canvas ctx innerWidth coin =
     (if \<not> canvas then None
      else if \<not> ctx then None
      else
        let resized = updateCanvasSize innerWidth
              \<lparr>canvas_width = 0, canvas_height = 0, const_width = 0, const_height = 0,
               var_grid = [], ctx_calls = []\<rparr>;
            width = cells_across (canvas_width resized);
            height = cells_across (canvas_height resized)
        in Some (resized\<lparr>const_width := width, const_height := height,
                  var_grid := map (\<lambda>i. map (\<lambda>j. if coin i j then 1 else 0) [0..<width])
                                [0..<height]\<rparr>))"

text \<open>
  The body of \<open>draw\<close>'s inner loop. \<open>grid[i][j] === 1\<close> is false for an undefined cell, so
  only a missing row is a fault here.
\<close>

definition draw_cell :: "grid \<Rightarrow> nat \<Rightarrow> nat \<Rightarrow> fault + ctx_call list \<Rightarrow> fault + ctx_call list" where
  "draw_cell grid i j acc =
     (case acc of
        Inl e \<Rightarrow> Inl e
      | Inr calls \<Rightarrow>
          (case cell grid (int i) (int j) of
             Inl TypeError \<Rightarrow> Inl TypeError
           | Inl NotANumber \<Rightarrow> Inr calls
           | Inr v \<Rightarrow>
               if v = 1 then
                 Inr (calls @ [FillStyle ''#E5E4E2'',
                        FillRect (int j * int cellSize) (int i * int cellSize)
                          (int cellSize) (int cellSize)])
               else Inr calls))"

text \<open>The drawing part of \<open>draw\<close>: \<open>clearRect\<close> and the two loops over the grid.\<close>

definition render :: "closure \<Rightarrow> fault + ctx_call list" where
  "render s =
     fold (\<lambda>i. fold (draw_cell (var_grid s) i) [0..<const_width s]) [0..<const_height s]
       (Inr [ClearRect 0 0 (int (canvas_width s)) (int (canvas_height s))])"

text \<open>
  \<open>draw\<close>, the callback of \<open>setInterval(draw, 500)\<close>. A throw ends the call; the model does
  not go on from a fault.
\<close>

definition draw :: "bool \<Rightarrow> bool \<Rightarrow> closure \<Rightarrow> fault + closure" where
  "draw canvas ctx s =
     (if \<not> ctx \<or> \<not> canvas then Inr s
      else
        (case render s of
           Inl e \<Rightarrow> Inl e
         | Inr calls \<Rightarrow>
             (case update (const_height s) (const_width s) (var_grid s) of
                Inl e \<Rightarrow> Inl e
              | Inr newGrid \<Rightarrow> Inr (s\<lparr>ctx_calls := ctx_calls s @ calls, var_grid := newGrid\<rparr>))))"

text \<open>
  The events the component reacts to after mounting, where canvas and context are non-null:
  the timer calls \<open>draw\<close>, a resize of the window calls \<open>updateCanvasSize\<close>. A run handles a
  list of events in order.
\<close>

datatype event = Tick | Resize nat

definition handle :: "event \<Rightarrow> closure \<Rightarrow> fault + closure" where
  "handle e s =
     (case e of
        Tick \<Rightarrow> draw True True s
      | Resize innerWidth \<Rightarrow> Inr (updateCanvasSize innerWidth s))"

fun run :: "event list \<Rightarrow> closure \<Rightarrow> fault + closure" where
  "run [] s = Inr s"
| "run (e # es) s = (case handle e s of Inl f \<Rightarrow> Inl f | Inr s' \<Rightarrow> run es s')"

text \<open>The calls \<open>draw\<close> makes for one cell and for one row of a grid.\<close>

definition cell_calls :: "grid \<Rightarrow> nat \<Rightarrow> nat \<Rightarrow> ctx_call list" where
  "cell_calls grid i j =
     (if grid ! i ! j = 1 then [FillStyle ''#E5E4E2'', FillRect (int j * 5) (int i * 5) 5 5] else [])"

definition row_calls :: "nat \<Rightarrow> grid \<Rightarrow> nat \<Rightarrow> ctx_call list" where
  "row_calls width grid i = concat (map (cell_calls grid i) [0..<width])"

text \<open>Sample inputs: the coin that gives 1 only for row 0, column 0, and the one that always gives 1.\<close>

definition corner_coin :: "nat \<Rightarrow> nat \<Rightarrow> bool" where
  "corner_coin i j \<longleftrightarrow> i = 0 \<and> j = 0"

definition heads_coin :: "nat \<Rightarrow> nat \<Rightarrow> bool" where
  "heads_coin i j \<longleftrightarrow> True"

definition lone_cell :: closure where
  "lone_cell = \<lparr>canvas_width = 15, canvas_height = 100, const_width = 3, const_height = 20,
     var_grid = [1, 0, 0] # replicate 19 [0, 0, 0], ctx_calls = []\<rparr>"

subsection \<open>update on a store of arrays\<close>

text \<open>
  JavaScript arrays are objects: \<open>grid\<close> is a reference to an array of references to rows,
  and \<open>newGrid[i][j] = v\<close> writes into the row object that \<open>newGrid[i]\<close> refers to. The store
  holds every array allocated so far; an array's address is its position in the store.
\<close>

datatype val = Num int | Ref nat | Null | Undefined

type_synonym store = "val list list"

text \<open>
  \<open>grid[r][c]\<close> for the reference \<open>g\<close>. Indexing \<open>null\<close> or \<open>undefined\<close> throws a TypeError;
  indexing a number, or an array beyond its length, gives \<open>undefined\<close>.
\<close>

definition load :: "store \<Rightarrow> nat \<Rightarrow> int \<Rightarrow> int \<Rightarrow> fault + int" where
  "load h g r c =
     (if g < length h \<and> 0 \<le> r \<and> nat r < length (h ! g) then
        (case h ! g ! nat r of
           Ref a \<Rightarrow>
             (if a < length h \<and> 0 \<le> c \<and> nat c < length (h ! a) then
                (case h ! a ! nat c of Num v \<Rightarrow> Inr v | _ \<Rightarrow> Inl NotANumber)
              else Inl NotANumber)
         | Num v \<Rightarrow> Inl NotANumber
         | _ \<Rightarrow> Inl TypeError)
      else Inl TypeError)"

text \<open>\<open>arr[j] = v\<close> on an array: beyond its length the array is extended with holes.\<close>

definition array_set :: "val list \<Rightarrow> nat \<Rightarrow> val \<Rightarrow> val list" where
  "array_set arr j v =
     (if j < length arr then arr[j := v]
      else arr @ replicate (j - length arr) Undefined @ [v])"

text \<open>\<open>newGrid[i][j] = v\<close> for the reference \<open>ng\<close>.\<close>

definition store_cell :: "store \<Rightarrow> nat \<Rightarrow> nat \<Rightarrow> nat \<Rightarrow> int \<Rightarrow> fault + store" where
  "store_cell h ng i j v =
     (if ng < length h \<and> i < length (h ! ng) then
        (case h ! ng ! i of
           Ref a \<Rightarrow> if a < length h then Inr (h[a := array_set (h ! a) j (Num v)]) else Inl TypeError
         | _ \<Rightarrow> Inl TypeError)
      else Inl TypeError)"

text \<open>
  One call of the callback of \<open>map\<close> for index \<open>k\<close>: \<open>Array(width).fill(0)\<close> allocates a row,
  and \<open>map\<close> stores the reference to it at index \<open>k\<close> of its result \<open>ng\<close>.
\<close>

definition new_row :: "nat \<Rightarrow> nat \<Rightarrow> nat \<Rightarrow> store \<Rightarrow> store" where
  "new_row width ng k h =
     (h @ [replicate width (Num 0)])[ng := array_set (h ! ng) k (Ref (length h))]"

text \<open>
  \<open>Array(height).fill(null).map(() => Array(width).fill(0))\<close>: the array of nulls, then the
  array \<open>map\<close> returns, then one row for each index. Gives the store and the reference to
  the result of \<open>map\<close>.
\<close>

definition new_grid :: "nat \<Rightarrow> nat \<Rightarrow> store \<Rightarrow> store \<times> nat" where
  "new_grid height width h =
     (let nulls = length h;
          ng = Suc nulls;
          h2 = h @ [replicate height Null, replicate height Undefined]
      in (fold (new_row width ng) [0..<height] h2, ng))"

definition update_cell_s ::
  "nat \<Rightarrow> nat \<Rightarrow> nat \<Rightarrow> nat \<Rightarrow> nat \<Rightarrow> nat \<Rightarrow> fault + store \<Rightarrow> fault + store" where
  "update_cell_s height width g ng i j acc =
     (case acc of
        Inl e \<Rightarrow> Inl e
      | Inr h \<Rightarrow>
          (case count_loop (load h g) height width (int i) (int j) of
             Inl e \<Rightarrow> Inl e
           | Inr neighbors \<Rightarrow>
               (case load h g (int i) (int j) of
                  Inl e \<Rightarrow> Inl e
                | Inr cur \<Rightarrow> store_cell h ng i j (next_state cur neighbors))))"

text \<open>\<open>update(grid)\<close> for the reference \<open>g\<close>: the store after the call and the reference returned.\<close>

definition update_s :: "nat \<Rightarrow> nat \<Rightarrow> store \<Rightarrow> nat \<Rightarrow> fault + store \<times> nat" where
  "update_s height width h g =
     (case new_grid height width h of
        (h0, ng) \<Rightarrow>
          (case fold (\<lambda>i. fold (update_cell_s height width g ng i) [0..<width]) [0..<height] (Inr h0) of
             Inl e \<Rightarrow> Inl e
           | Inr h' \<Rightarrow> Inr (h', ng)))"

text \<open>The store holds the grid \<open>grid\<close> at the reference \<open>g\<close>.\<close>

definition holds :: "store \<Rightarrow> nat \<Rightarrow> grid \<Rightarrow> bool" where
  "holds h g grid \<longleftrightarrow>
     g < length h \<and>
     list_all2 (\<lambda>v row. case v of Ref a \<Rightarrow> a < length h \<and> h ! a = map Num row | _ \<Rightarrow> False)
       (h ! g) grid"

text \<open>
  The store \<open>h\<close> followed by what \<open>new_grid\<close> allocates, with \<open>rows\<close> as the contents of the
  new rows.
\<close>

definition extended :: "store \<Rightarrow> nat \<Rightarrow> val list list \<Rightarrow> store" where
  "extended h height rows =
     h @ replicate height Null # map (\<lambda>k. Ref (length h + 2 + k)) [0..<height] # rows"

text \<open>The store that holds the value-level \<open>newGrid\<close> in the rows \<open>new_grid\<close> allocated.\<close>

definition with_rows :: "store \<Rightarrow> nat \<Rightarrow> fault + grid \<Rightarrow> fault + store" where
  "with_rows h height acc =
     (case acc of Inl e \<Rightarrow> Inl e | Inr newGrid \<Rightarrow> Inr (extended h height (map (map Num) newGrid)))"

text \<open>An accumulator of the value-level loops that has not faulted has the closure's dimensions.\<close>

definition sized :: "nat \<Rightarrow> nat \<Rightarrow> fault + grid \<Rightarrow> bool" where
  "sized height width acc = (case acc of Inl e \<Rightarrow> True | Inr newGrid \<Rightarrow> has_dims height width newGrid)"

text \<open>A sample store: a 3\<times>3 grid at address 0 with its rows at addresses 1 to 3.\<close>

definition sample_store :: store where
  "sample_store = [[Ref 1, Ref 2, Ref 3], [Num 0, Num 1, Num 0], [Num 0, Num 1, Num 0],
     [Num 0, Num 1, Num 0]]"

section \<open>Properties of countAliveNeighbors and update\<close>

lemma has_dims_nth: "has_dims height width grid \<Longrightarrow> i < height \<Longrightarrow> length (grid ! i) = width"
  by (simp add: has_dims_def list_all_length)

lemma cell_in_bounds:
  assumes "has_dims height width grid" "0 \<le> r" "r < int height" "0 \<le> c" "c < int width"
  shows "cell grid r c = Inr (grid ! nat r ! nat c)"
proof -
  from assms have "nat r < height" "nat c < width" by linarith+
  with assms(1) show ?thesis
    using has_dims_nth [of height width grid "nat r"] assms(2,4)
    by (simp add: cell_def has_dims_def)
qed

lemma count_step_state_at:
  assumes "has_dims height width grid" "(i, j) \<noteq> (0, 0)"
  shows "count_step (cell grid) height width x y i j (Inr n)
           = Inr (n + state_at height width grid (x + i) (y + j))"
  using assms cell_in_bounds [of height width grid "x + i" "y + j"]
  by (auto simp add: count_step_def state_at_def)

lemma count_step_centre: "count_step rd height width x y 0 0 (Inr n) = Inr n"
  by (simp add: count_step_def)

lemma countAliveNeighbors_live_around:
  assumes "has_dims height width grid"
  shows "countAliveNeighbors height width grid x y = Inr (live_around height width grid x y)"
  by (simp add: countAliveNeighbors_def count_loop_def count_step_state_at [OF assms]
      count_step_centre live_around_def)

lemma fill_next:
  assumes "length A = n" "n < length xs"
  shows "(A @ drop n xs)[n := v] = (A @ [v]) @ drop (Suc n) xs"
proof -
  from assms(2) have "drop n xs = xs ! n # drop (Suc n) xs"
    by (simp add: Cons_nth_drop_Suc)
  with assms(1) show ?thesis by (simp add: list_update_append)
qed

lemma update_cell_ok:
  assumes "has_dims height width grid" "i < height" "j < width"
  shows "update_cell height width grid i j (Inr newGrid)
           = Inr (set_cell newGrid i j (next_cell height width grid i j))"
  using assms cell_in_bounds [of height width grid "int i" "int j"]
  by (simp add: update_cell_def countAliveNeighbors_live_around next_cell_def)

lemma update_row:
  assumes "has_dims height width grid" "i < height" "length newGrid = height"
    "length (newGrid ! i) = width"
  shows "n \<le> width \<Longrightarrow>
         fold (update_cell height width grid i) [0..<n] (Inr newGrid)
           = Inr (newGrid[i := map (next_cell height width grid i) [0..<n] @ drop n (newGrid ! i)])"
proof (induction n)
  case 0
  then show ?case by simp
next
  case (Suc n)
  then have n: "n < width" by simp
  with Suc assms show ?case
    by (simp add: update_cell_ok set_cell_def fill_next)
qed

lemma update_rows:
  assumes "has_dims height width grid"
  shows "m \<le> height \<Longrightarrow>
         fold (\<lambda>i. fold (update_cell height width grid i) [0..<width]) [0..<m]
            (Inr (replicate height (replicate width 0)))
           = Inr (map (\<lambda>i. map (next_cell height width grid i) [0..<width]) [0..<m]
                   @ drop m (replicate height (replicate width 0)))"
proof (induction m)
  case 0
  then show ?case by simp
next
  case (Suc m)
  then have m: "m < height" by simp
  define filled where "filled = map (\<lambda>i. map (next_cell height width grid i) [0..<width]) [0..<m]"
  define blank where "blank = replicate height (replicate width (0::int))"
  define X where "X = filled @ drop m blank"
  define row where "row = map (next_cell height width grid m) [0..<width]"
  have len: "length X = height" using m by (simp add: X_def filled_def blank_def)
  have Xm: "X ! m = replicate width 0" using m by (simp add: X_def filled_def blank_def nth_append)
  have "fold (update_cell height width grid m) [0..<width] (Inr X)
         = Inr (X[m := row @ drop width (X ! m)])"
    unfolding row_def using update_row [OF assms m len, of width] Xm by simp
  also have "X[m := row @ drop width (X ! m)] = X[m := row]"
    by (simp add: Xm)
  also have "X[m := row] = (filled @ [row]) @ drop (Suc m) blank"
    unfolding X_def using m by (intro fill_next) (simp_all add: filled_def blank_def)
  also have "filled @ [row] = map (\<lambda>i. map (next_cell height width grid i) [0..<width]) [0..<Suc m]"
    by (simp add: filled_def row_def)
  finally have "fold (update_cell height width grid m) [0..<width] (Inr X)
      = Inr (map (\<lambda>i. map (next_cell height width grid i) [0..<width]) [0..<Suc m]
              @ drop (Suc m) blank)" .
  moreover have "fold (\<lambda>i. fold (update_cell height width grid i) [0..<width]) [0..<m] (Inr blank)
      = Inr X"
    using Suc m by (simp add: X_def filled_def blank_def)
  ultimately show ?case by (simp add: blank_def)
qed

lemma update_eq:
  assumes "has_dims height width grid"
  shows "update height width grid
           = Inr (map (\<lambda>i. map (next_cell height width grid i) [0..<width]) [0..<height])"
  using update_rows [OF assms, of height] by (simp add: update_def)


lemma binary_state_at:
  assumes "binary_grid height width grid"
  shows "state_at height width grid r c = 0 \<or> state_at height width grid r c = 1"
proof (cases "0 \<le> r \<and> r < int height \<and> 0 \<le> c \<and> c < int width")
  case True
  then have r: "nat r < length grid" and c: "nat c < width"
    using assms by (auto simp add: binary_grid_def has_dims_def)
  moreover have "length (grid ! nat r) = width"
    using assms r by (simp add: binary_grid_def has_dims_def list_all_length)
  ultimately have "grid ! nat r ! nat c = 0 \<or> grid ! nat r ! nat c = 1"
    using assms by (simp add: binary_grid_def list_all_length)
  with True show ?thesis by (simp add: state_at_def)
next
  case False
  then show ?thesis by (auto simp add: state_at_def)
qed

lemma live_around_bounds:
  assumes "binary_grid height width grid"
  shows "0 \<le> live_around height width grid x y \<and> live_around height width grid x y \<le> 8"
proof -
  have b: "0 \<le> state_at height width grid r c \<and> state_at height width grid r c \<le> 1" for r c
    using binary_state_at [OF assms, of r c] by auto
  show ?thesis
    unfolding live_around_def
    using b [of "x - 1" "y - 1"] b [of "x - 1" y] b [of "x - 1" "y + 1"] b [of x "y - 1"]
      b [of x "y + 1"] b [of "x + 1" "y - 1"] b [of "x + 1" y] b [of "x + 1" "y + 1"]
    by linarith
qed

lemma adjacent8_iff:
  "(r, c) \<in> adjacent8 x y \<longleftrightarrow> (r, c) \<noteq> (x, y) \<and> \<bar>r - x\<bar> \<le> 1 \<and> \<bar>c - y\<bar> \<le> 1"
proof -
  have r: "\<bar>r - x\<bar> \<le> 1 \<longleftrightarrow> r = x - 1 \<or> r = x \<or> r = x + 1" by arith
  have c: "\<bar>c - y\<bar> \<le> 1 \<longleftrightarrow> c = y - 1 \<or> c = y \<or> c = y + 1" by arith
  show ?thesis unfolding adjacent8_def r c by auto
qed

lemma sum_adjacent8:
  "(\<Sum>p \<in> adjacent8 x y. f p) = f (x - 1, y - 1) + f (x - 1, y) + f (x - 1, y + 1)
      + f (x, y - 1) + f (x, y + 1) + f (x + 1, y - 1) + f (x + 1, y) + f (x + 1, y + 1)"
  unfolding adjacent8_def by (simp add: add.assoc)

lemma live_around_sum:
  "live_around height width grid x y =
     (\<Sum>(r, c) \<in> {(r, c). (r, c) \<noteq> (x, y) \<and> \<bar>r - x\<bar> \<le> 1 \<and> \<bar>c - y\<bar> \<le> 1
                        \<and> 0 \<le> r \<and> r < int height \<and> 0 \<le> c \<and> c < int width}.
        grid ! nat r ! nat c)"
proof -
  let ?inb = "\<lambda>p. 0 \<le> fst p \<and> fst p < int height \<and> 0 \<le> snd p \<and> snd p < int width"
  let ?g = "\<lambda>p. grid ! nat (fst p) ! nat (snd p)"
  have set: "{(r, c). (r, c) \<noteq> (x, y) \<and> \<bar>r - x\<bar> \<le> 1 \<and> \<bar>c - y\<bar> \<le> 1
                        \<and> 0 \<le> r \<and> r < int height \<and> 0 \<le> c \<and> c < int width}
      = {p \<in> adjacent8 x y. ?inb p}"
  proof -
    have "\<And>r c. (r, c) \<in> adjacent8 x y
        \<longleftrightarrow> (r, c) \<noteq> (x, y) \<and> \<bar>r - x\<bar> \<le> 1 \<and> \<bar>c - y\<bar> \<le> 1"
      by (rule adjacent8_iff)
    then show ?thesis by (auto simp del: abs_le_iff)
  qed
  have fin: "finite (adjacent8 x y)" by (simp add: adjacent8_def)
  have "(\<Sum>p \<in> {p \<in> adjacent8 x y. ?inb p}. ?g p)
      = (\<Sum>p \<in> adjacent8 x y. if ?inb p then ?g p else 0)"
    using fin by (simp add: sum.inter_filter)
  also have "\<dots> = live_around height width grid x y"
    by (simp add: sum_adjacent8 live_around_def state_at_def)
  finally have "live_around height width grid x y
      = (\<Sum>p \<in> {p \<in> adjacent8 x y. ?inb p}. ?g p)" by simp
  then show ?thesis
    unfolding set by (simp only: case_prod_unfold)
qed

text \<open>
  C2. On a grid of 0/1 cells with the closure's dimensions, \<open>countAliveNeighbors\<close> returns
  the sum of the states of the coordinates that differ from \<open>(x, y)\<close> by at most one in each
  direction, are not \<open>(x, y)\<close> itself and lie within \<open>[0, height) \<times> [0, width)\<close>; coordinates
  outside the grid add nothing, and the result lies between 0 and 8.
\<close>

theorem countAliveNeighbors_sums_in_bounds_neighbours:
  assumes "binary_grid height width grid"
    and "0 \<le> x" "x < int height" "0 \<le> y" "y < int width"
  shows "\<exists>n. countAliveNeighbors height width grid x y = Inr n
           \<and> n = (\<Sum>(r, c) \<in> {(r, c). (r, c) \<noteq> (x, y) \<and> \<bar>r - x\<bar> \<le> 1 \<and> \<bar>c - y\<bar> \<le> 1
                        \<and> 0 \<le> r \<and> r < int height \<and> 0 \<le> c \<and> c < int width}.
                     grid ! nat r ! nat c)
           \<and> 0 \<le> n \<and> n \<le> 8"
proof -
  from assms(1) have "has_dims height width grid" by (simp add: binary_grid_def)
  then have "countAliveNeighbors height width grid x y = Inr (live_around height width grid x y)"
    by (rule countAliveNeighbors_live_around)
  then show ?thesis
    using live_around_bounds [OF assms(1), of x y] live_around_sum [of height width grid x y]
    by simp
qed

theorem countAliveNeighbors_sums_in_bounds_neighbours_witness:
  "binary_grid 3 3 [[0, 1, 0], [0, 1, 0], [0, 1, 0]] \<and> (0::int) \<le> 1 \<and> (1::int) < int 3
   \<and> (\<exists>n. countAliveNeighbors 3 3 [[0, 1, 0], [0, 1, 0], [0, 1, 0]] 1 1 = Inr n
        \<and> n = (\<Sum>(r, c) \<in> {(r, c). (r, c) \<noteq> (1, 1) \<and> \<bar>r - 1\<bar> \<le> 1 \<and> \<bar>c - 1\<bar> \<le> 1
                        \<and> 0 \<le> r \<and> r < int 3 \<and> 0 \<le> c \<and> c < int 3}.
                  [[0, 1, 0], [0, 1, 0], [0, 1, 0]] ! nat r ! nat c)
        \<and> 0 \<le> n \<and> n \<le> 8)"
  using countAliveNeighbors_sums_in_bounds_neighbours [of 3 3 "[[0, 1, 0], [0, 1, 0], [0, 1, 0]]" 1 1]
  by (simp add: binary_grid_def has_dims_def)

text \<open>
  C1. On a grid of 0/1 cells, \<open>update\<close> returns a grid whose cell at an in-bounds
  \<open>(row, col)\<close> follows Conway's rule for the count \<open>countAliveNeighbors\<close> gives on the input:
  birth on exactly 3, survival on 2 or 3, death below 2 or above 3, and a dead cell with
  another count stays dead.
\<close>

theorem update_follows_conway:
  assumes "binary_grid height width grid" "row < height" "col < width"
  shows "\<exists>newGrid n. update height width grid = Inr newGrid
           \<and> countAliveNeighbors height width grid (int row) (int col) = Inr n
           \<and> (grid ! row ! col = 0 \<and> n = 3 \<longrightarrow> newGrid ! row ! col = 1)
           \<and> (grid ! row ! col = 1 \<and> (n = 2 \<or> n = 3) \<longrightarrow> newGrid ! row ! col = 1)
           \<and> (grid ! row ! col = 1 \<and> (n < 2 \<or> n > 3) \<longrightarrow> newGrid ! row ! col = 0)
           \<and> (grid ! row ! col = 0 \<and> n \<noteq> 3 \<longrightarrow> newGrid ! row ! col = 0)"
proof -
  from assms(1) have d: "has_dims height width grid" by (simp add: binary_grid_def)
  have "map (\<lambda>i. map (next_cell height width grid i) [0..<width]) [0..<height] ! row ! col
          = next_state (grid ! row ! col) (live_around height width grid (int row) (int col))"
    using assms(2,3) by (simp add: next_cell_def)
  then show ?thesis
    using update_eq [OF d] countAliveNeighbors_live_around [OF d, of "int row" "int col"]
    by (auto simp add: next_state_def)
qed

theorem update_follows_conway_witness:
  "binary_grid 3 3 [[0, 1, 0], [0, 1, 0], [0, 1, 0]] \<and> (1::nat) < 3
   \<and> (\<exists>newGrid n. update 3 3 [[0, 1, 0], [0, 1, 0], [0, 1, 0]] = Inr newGrid
        \<and> countAliveNeighbors 3 3 [[0, 1, 0], [0, 1, 0], [0, 1, 0]] (int 1) (int 1) = Inr n
        \<and> n = 2 \<and> newGrid ! 1 ! 1 = 1)"
proof -
  have c: "countAliveNeighbors 3 3 [[0, 1, 0], [0, 1, 0], [0, 1, 0]] 1 1 = Inr 2"
    by (simp add: countAliveNeighbors_def count_loop_def count_step_def cell_def)
  have b: "binary_grid 3 3 [[0, 1, 0], [0, 1, 0], [0, 1, 0]]"
    by (simp add: binary_grid_def has_dims_def)
  show ?thesis
    using update_follows_conway [OF b, of 1 1] b c by auto
qed

subsection \<open>Patterns under update\<close>

lemma has_dims_pattern: "has_dims height width (pattern height width P)"
  by (simp add: has_dims_def pattern_def list_all_iff)

lemma state_at_pattern:
  "state_at height width (pattern height width P) r c
     = (if 0 \<le> r \<and> r < int height \<and> 0 \<le> c \<and> c < int width \<and> P r c then 1 else 0)"
  by (auto simp add: state_at_def pattern_def)

lemma state_at_pattern_inside:
  assumes "\<And>r c. P r c \<Longrightarrow> 0 \<le> r \<and> r < int height \<and> 0 \<le> c \<and> c < int width"
  shows "state_at height width (pattern height width P) r c = (if P r c then 1 else 0)"
  using assms [of r c] by (auto simp add: state_at_pattern)

lemma update_pattern:
  assumes "\<And>i j. i < height \<Longrightarrow> j < width \<Longrightarrow>
             next_state (if P (int i) (int j) then 1 else 0)
               (live_around height width (pattern height width P) (int i) (int j))
             = (if Q (int i) (int j) then 1 else 0)"
  shows "update height width (pattern height width P) = Inr (pattern height width Q)"
proof -
  have "next_cell height width (pattern height width P) i j = (if Q (int i) (int j) then 1 else 0)"
    if "i < height" "j < width" for i j
    using that assms [OF that] by (simp add: next_cell_def pattern_def)
  then have "map (\<lambda>i. map (next_cell height width (pattern height width P) i) [0..<width]) [0..<height]
      = pattern height width Q"
    by (simp add: pattern_def)
  then show ?thesis
    using update_eq [OF has_dims_pattern, of height width P] by simp
qed

text \<open>
  C9. For all dimensions, \<open>update\<close> maps the grid whose cells are all dead to the grid whose
  cells are all dead.
\<close>

theorem update_all_dead:
  "update height width (replicate height (replicate width 0))
     = Inr (replicate height (replicate width 0))"
proof -
  have dead: "replicate height (replicate width 0) = pattern height width (\<lambda>r c. False)"
    by (simp add: pattern_def map_replicate_const)
  have "update height width (pattern height width (\<lambda>r c. False))
      = Inr (pattern height width (\<lambda>r c. False))"
    by (rule update_pattern) (simp add: live_around_def state_at_pattern next_state_def)
  then show ?thesis by (simp add: dead)
qed

theorem update_all_dead_witness:
  "update 2 3 [[0, 0, 0], [0, 0, 0]] = Inr [[0, 0, 0], [0, 0, 0]]"
  using update_all_dead [of 2 3] by (simp add: numeral_2_eq_2 numeral_3_eq_3)

lemma block_cell:
  fixes i j r0 c0 :: int
  defines "B \<equiv> \<lambda>r c. (r = r0 \<or> r = r0 + 1) \<and> (c = c0 \<or> c = c0 + 1)"
  defines "v \<equiv> \<lambda>r c. if B r c then 1 else (0::int)"
  shows "next_state (v i j)
           (v (i - 1) (j - 1) + v (i - 1) j + v (i - 1) (j + 1) + v i (j - 1) + v i (j + 1)
              + v (i + 1) (j - 1) + v (i + 1) j + v (i + 1) (j + 1)) = v i j"
proof -
  have i: "i < r0 - 1 \<or> i = r0 - 1 \<or> i = r0 \<or> i = r0 + 1 \<or> i = r0 + 2 \<or> i > r0 + 2" by arith
  have j: "j < c0 - 1 \<or> j = c0 - 1 \<or> j = c0 \<or> j = c0 + 1 \<or> j = c0 + 2 \<or> j > c0 + 2" by arith
  show ?thesis
    using i j unfolding v_def B_def next_state_def
    by (elim disjE; simp)
qed

text \<open>
  C7. On a grid of at least 4\<times>4 cells whose only alive cells are a 2\<times>2 square lying in the
  grid, \<open>update\<close> returns the grid it was given.
\<close>

theorem update_block_still_life:
  assumes "4 \<le> height" "4 \<le> width" "r0 + 1 < height" "c0 + 1 < width"
  shows "update height width (block height width r0 c0) = Inr (block height width r0 c0)"
  unfolding block_def
proof (rule update_pattern)
  fix i j
  let ?B = "\<lambda>r c. (r = int r0 \<or> r = int r0 + 1) \<and> (c = int c0 \<or> c = int c0 + 1)"
  have inside: "state_at height width (pattern height width ?B) r c = (if ?B r c then 1 else 0)"
    for r c
    by (rule state_at_pattern_inside) (use assms(3,4) in auto)
  show "next_state (if ?B (int i) (int j) then 1 else 0)
          (live_around height width (pattern height width ?B) (int i) (int j))
        = (if ?B (int i) (int j) then 1 else 0)"
    unfolding live_around_def inside
    by (rule block_cell)
qed

theorem update_block_still_life_witness:
  "(4::nat) \<le> 4 \<and> (1::nat) + 1 < 4
   \<and> update 4 4 (block 4 4 1 1) = Inr (block 4 4 1 1)
   \<and> block 4 4 1 1 = [[0, 0, 0, 0], [0, 1, 1, 0], [0, 1, 1, 0], [0, 0, 0, 0]]"
proof -
  have "block 4 4 1 1 = [[0, 0, 0, 0], [0, 1, 1, 0], [0, 1, 1, 0], [0, 0, 0, 0]]"
    by code_simp
  then show ?thesis
    using update_block_still_life [of 4 4 1 1] by simp
qed

lemma blinker_row_cell:
  fixes i j r0 c0 :: int
  defines "v \<equiv> \<lambda>r c. if r = r0 \<and> (c = c0 - 1 \<or> c = c0 \<or> c = c0 + 1) then 1 else (0::int)"
  shows "next_state (v i j)
           (v (i - 1) (j - 1) + v (i - 1) j + v (i - 1) (j + 1) + v i (j - 1) + v i (j + 1)
              + v (i + 1) (j - 1) + v (i + 1) j + v (i + 1) (j + 1))
         = (if j = c0 \<and> (i = r0 - 1 \<or> i = r0 \<or> i = r0 + 1) then 1 else 0)"
proof -
  have i: "i < r0 - 1 \<or> i = r0 - 1 \<or> i = r0 \<or> i = r0 + 1 \<or> i > r0 + 1" by arith
  have j: "j < c0 - 2 \<or> j = c0 - 2 \<or> j = c0 - 1 \<or> j = c0 \<or> j = c0 + 1 \<or> j = c0 + 2 \<or> j > c0 + 2"
    by arith
  show ?thesis
    using i j unfolding v_def next_state_def
    by (elim disjE; simp)
qed

lemma blinker_col_cell:
  fixes i j r0 c0 :: int
  defines "v \<equiv> \<lambda>r c. if c = c0 \<and> (r = r0 - 1 \<or> r = r0 \<or> r = r0 + 1) then 1 else (0::int)"
  shows "next_state (v i j)
           (v (i - 1) (j - 1) + v (i - 1) j + v (i - 1) (j + 1) + v i (j - 1) + v i (j + 1)
              + v (i + 1) (j - 1) + v (i + 1) j + v (i + 1) (j + 1))
         = (if i = r0 \<and> (j = c0 - 1 \<or> j = c0 \<or> j = c0 + 1) then 1 else 0)"
proof -
  have j: "j < c0 - 1 \<or> j = c0 - 1 \<or> j = c0 \<or> j = c0 + 1 \<or> j > c0 + 1" by arith
  have i: "i < r0 - 2 \<or> i = r0 - 2 \<or> i = r0 - 1 \<or> i = r0 \<or> i = r0 + 1 \<or> i = r0 + 2 \<or> i > r0 + 2"
    by arith
  show ?thesis
    using i j unfolding v_def next_state_def
    by (elim disjE; simp)
qed

lemma update_blinker_row:
  assumes "1 \<le> r0" "r0 + 1 < height" "1 \<le> c0" "c0 + 1 < width"
  shows "update height width (blinker_row height width r0 c0) = Inr (blinker_col height width r0 c0)"
  unfolding blinker_row_def blinker_col_def
proof (rule update_pattern)
  fix i j
  let ?P = "\<lambda>r c. r = int r0 \<and> (c = int c0 - 1 \<or> c = int c0 \<or> c = int c0 + 1)"
  have inside: "state_at height width (pattern height width ?P) r c = (if ?P r c then 1 else 0)"
    for r c
    by (rule state_at_pattern_inside) (use assms in auto)
  show "next_state (if ?P (int i) (int j) then 1 else 0)
          (live_around height width (pattern height width ?P) (int i) (int j))
        = (if int j = int c0 \<and> (int i = int r0 - 1 \<or> int i = int r0 \<or> int i = int r0 + 1)
           then 1 else 0)"
    unfolding live_around_def inside
    by (rule blinker_row_cell)
qed

lemma update_blinker_col:
  assumes "1 \<le> r0" "r0 + 1 < height" "1 \<le> c0" "c0 + 1 < width"
  shows "update height width (blinker_col height width r0 c0) = Inr (blinker_row height width r0 c0)"
  unfolding blinker_row_def blinker_col_def
proof (rule update_pattern)
  fix i j
  let ?P = "\<lambda>r c. c = int c0 \<and> (r = int r0 - 1 \<or> r = int r0 \<or> r = int r0 + 1)"
  have inside: "state_at height width (pattern height width ?P) r c = (if ?P r c then 1 else 0)"
    for r c
    by (rule state_at_pattern_inside) (use assms in auto)
  show "next_state (if ?P (int i) (int j) then 1 else 0)
          (live_around height width (pattern height width ?P) (int i) (int j))
        = (if int i = int r0 \<and> (int j = int c0 - 1 \<or> int j = int c0 \<or> int j = int c0 + 1)
           then 1 else 0)"
    unfolding live_around_def inside
    by (rule blinker_col_cell)
qed

lemma blinker_col_differs:
  assumes "r0 < height" "c0 + 1 < width"
  shows "blinker_col height width r0 c0 \<noteq> blinker_row height width r0 c0"
proof
  assume eq: "blinker_col height width r0 c0 = blinker_row height width r0 c0"
  have "blinker_row height width r0 c0 ! r0 ! (c0 + 1) = 1"
    using assms by (simp add: blinker_row_def pattern_def)
  moreover have "blinker_col height width r0 c0 ! r0 ! (c0 + 1) = 0"
    using assms by (simp add: blinker_col_def pattern_def)
  ultimately show False using eq by simp
qed

text \<open>
  C8. On a grid of at least 5\<times>5 cells whose only alive cells are three in a row, with the
  rows above and below and the columns left and right of them inside the grid, \<open>update\<close>
  returns the same three cells turned into a column, \<open>update\<close> of that returns the row again,
  and the column differs from the row: the row comes back after two steps and not after one.
\<close>

theorem update_blinker_period_two:
  assumes "5 \<le> height" "5 \<le> width" "1 \<le> r0" "r0 + 1 < height" "1 \<le> c0" "c0 + 1 < width"
  shows "update height width (blinker_row height width r0 c0)
           = Inr (blinker_col height width r0 c0)
         \<and> update height width (blinker_col height width r0 c0)
           = Inr (blinker_row height width r0 c0)
         \<and> blinker_col height width r0 c0 \<noteq> blinker_row height width r0 c0"
  using update_blinker_row [OF assms(3-6)] update_blinker_col [OF assms(3-6)]
    blinker_col_differs [of r0 height c0 width] assms(4,6)
  by simp

theorem update_blinker_period_two_witness:
  "blinker_row 5 5 2 2
       = [[0, 0, 0, 0, 0], [0, 0, 0, 0, 0], [0, 1, 1, 1, 0], [0, 0, 0, 0, 0], [0, 0, 0, 0, 0]]
   \<and> blinker_col 5 5 2 2
       = [[0, 0, 0, 0, 0], [0, 0, 1, 0, 0], [0, 0, 1, 0, 0], [0, 0, 1, 0, 0], [0, 0, 0, 0, 0]]
   \<and> update 5 5 (blinker_row 5 5 2 2) = Inr (blinker_col 5 5 2 2)
   \<and> update 5 5 (blinker_col 5 5 2 2) = Inr (blinker_row 5 5 2 2)
   \<and> blinker_col 5 5 2 2 \<noteq> blinker_row 5 5 2 2"
proof -
  have "blinker_row 5 5 2 2
       = [[0, 0, 0, 0, 0], [0, 0, 0, 0, 0], [0, 1, 1, 1, 0], [0, 0, 0, 0, 0], [0, 0, 0, 0, 0]]"
    by code_simp
  moreover have "blinker_col 5 5 2 2
       = [[0, 0, 0, 0, 0], [0, 0, 1, 0, 0], [0, 0, 1, 0, 0], [0, 0, 1, 0, 0], [0, 0, 0, 0, 0]]"
    by code_simp
  moreover have "update 5 5 (blinker_row 5 5 2 2) = Inr (blinker_col 5 5 2 2)
     \<and> update 5 5 (blinker_col 5 5 2 2) = Inr (blinker_row 5 5 2 2)
     \<and> blinker_col 5 5 2 2 \<noteq> blinker_row 5 5 2 2"
    using update_blinker_period_two [of 5 5 2 2] by simp
  ultimately show ?thesis by blast
qed

section \<open>Properties of the component\<close>

lemma cells_across_div: "cells_across a = (a + 4) div 5"
proof -
  have "\<lceil>real a / 5\<rceil> = int ((a + 4) div 5)" by linarith
  then show ?thesis by (simp add: cells_across_def cellSize_def)
qed

lemma next_state_binary: "cur = 0 \<or> cur = 1 \<Longrightarrow> next_state cur n = 0 \<or> next_state cur n = 1"
  by (auto simp add: next_state_def)

lemma binary_grid_nth:
  assumes "binary_grid height width grid" "i < height" "j < width"
  shows "grid ! i ! j = 0 \<or> grid ! i ! j = 1"
  using assms by (simp add: binary_grid_def has_dims_def list_all_length)

lemma update_binary:
  assumes "binary_grid height width grid"
  shows "\<exists>newGrid. update height width grid = Inr newGrid \<and> binary_grid height width newGrid"
proof -
  from assms have d: "has_dims height width grid" by (simp add: binary_grid_def)
  have "next_cell height width grid i j = 0 \<or> next_cell height width grid i j = 1"
    if "i < height" "j < width" for i j
    unfolding next_cell_def using binary_grid_nth [OF assms that] by (rule next_state_binary)
  then have "binary_grid height width
      (map (\<lambda>i. map (next_cell height width grid i) [0..<width]) [0..<height])"
    by (simp add: binary_grid_def has_dims_def list_all_iff)
  then show ?thesis using update_eq [OF d] by simp
qed

lemma draw_cell_ok:
  assumes "has_dims height width grid" "i < height" "j < width"
  shows "draw_cell grid i j (Inr calls) = Inr (calls @ cell_calls grid i j)"
  using assms cell_in_bounds [of height width grid "int i" "int j"]
  by (simp add: draw_cell_def cell_calls_def cellSize_def)

lemma draw_row:
  assumes "has_dims height width grid" "i < height"
  shows "n \<le> width \<Longrightarrow>
         fold (draw_cell grid i) [0..<n] (Inr calls)
           = Inr (calls @ concat (map (cell_calls grid i) [0..<n]))"
proof (induction n)
  case 0
  then show ?case by simp
next
  case (Suc n)
  then show ?case using assms by (simp add: draw_cell_ok [OF assms(1)])
qed

lemma draw_rows:
  assumes "has_dims height width grid"
  shows "m \<le> height \<Longrightarrow>
         fold (\<lambda>i. fold (draw_cell grid i) [0..<width]) [0..<m] (Inr calls)
           = Inr (calls @ concat (map (row_calls width grid) [0..<m]))"
proof (induction m)
  case 0
  then show ?case by simp
next
  case (Suc m)
  then show ?case using draw_row [OF assms, of m width] by (simp add: row_calls_def)
qed

lemma render_eq:
  assumes "has_dims (const_height s) (const_width s) (var_grid s)"
  shows "render s = Inr (ClearRect 0 0 (int (canvas_width s)) (int (canvas_height s))
                          # concat (map (row_calls (const_width s) (var_grid s)) [0..<const_height s]))"
  using draw_rows [OF assms, of "const_height s"] by (simp add: render_def)

lemma in_rows_iff:
  "x \<in> set (concat (map (row_calls width grid) [0..<height]))
     \<longleftrightarrow> (\<exists>i < height. \<exists>j < width. x \<in> set (cell_calls grid i j))"
  unfolding row_calls_def set_concat set_map by (simp add: Bex_def)

lemma fillRect_in_rows:
  assumes "i < height" "j < width"
  shows "FillRect (int j * 5) (int i * 5) 5 5 \<in> set (concat (map (row_calls width grid) [0..<height]))
           \<longleftrightarrow> grid ! i ! j = 1"
proof -
  have "FillRect (int j * 5) (int i * 5) 5 5 \<in> set (cell_calls grid i' j')
          \<longleftrightarrow> grid ! i' ! j' = 1 \<and> i' = i \<and> j' = j" for i' j'
    by (auto simp add: cell_calls_def)
  then show ?thesis
    unfolding in_rows_iff using assms by auto
qed

lemma fillRect_in_calls:
  assumes "i < height" "j < width"
  shows "FillRect (int j * 5) (int i * 5) 5 5
           \<in> set (ClearRect a b c d # concat (map (row_calls width grid) [0..<height]))
         \<longleftrightarrow> grid ! i ! j = 1"
  using fillRect_in_rows [OF assms, of grid] by simp

lemma mount_eq:
  "mount True True innerWidth coin =
     Some \<lparr>canvas_width = innerWidth, canvas_height = 100,
            const_width = (innerWidth + 4) div 5, const_height = 20,
            var_grid = map (\<lambda>i. map (\<lambda>j. if coin i j then 1 else 0) [0..<(innerWidth + 4) div 5])
                         [0..<20],
            ctx_calls = []\<rparr>"
  by (simp add: mount_def updateCanvasSize_def cells_across_div Let_def)

lemma mount_binary:
  "binary_grid 20 ((innerWidth + 4) div 5)
     (map (\<lambda>i. map (\<lambda>j. if coin i j then 1 else 0) [0..<(innerWidth + 4) div 5]) [0..<20])"
  by (simp add: binary_grid_def has_dims_def list_all_length)

lemma draw_eq:
  assumes "has_dims (const_height s) (const_width s) (var_grid s)"
  shows "draw True True s =
     Inr (s\<lparr>ctx_calls := ctx_calls s @
               ClearRect 0 0 (int (canvas_width s)) (int (canvas_height s))
                 # concat (map (row_calls (const_width s) (var_grid s)) [0..<const_height s]),
             var_grid := map (\<lambda>i. map (next_cell (const_height s) (const_width s) (var_grid s) i)
                                      [0..<const_width s]) [0..<const_height s]\<rparr>)"
  by (simp add: draw_def render_eq [OF assms] update_eq [OF assms])

text \<open>What every event keeps: the two constants, and a grid of 0/1 cells of their dimensions.\<close>

lemma handle_keeps:
  assumes "binary_grid (const_height s) (const_width s) (var_grid s)"
  shows "\<exists>s'. handle e s = Inr s' \<and> const_width s' = const_width s
           \<and> const_height s' = const_height s
           \<and> binary_grid (const_height s') (const_width s') (var_grid s')"
proof (cases e)
  case Tick
  from assms have d: "has_dims (const_height s) (const_width s) (var_grid s)"
    by (simp add: binary_grid_def)
  from update_binary [OF assms] update_eq [OF d]
  have "binary_grid (const_height s) (const_width s)
          (map (\<lambda>i. map (next_cell (const_height s) (const_width s) (var_grid s) i)
                  [0..<const_width s]) [0..<const_height s])"
    by simp
  with Tick show ?thesis by (simp add: handle_def draw_eq [OF d])
next
  case (Resize innerWidth)
  with assms show ?thesis by (simp add: handle_def updateCanvasSize_def)
qed

lemma run_keeps:
  assumes "binary_grid (const_height s) (const_width s) (var_grid s)"
  shows "\<exists>s'. run es s = Inr s' \<and> const_width s' = const_width s
           \<and> const_height s' = const_height s
           \<and> binary_grid (const_height s') (const_width s') (var_grid s')"
  using assms
proof (induction es arbitrary: s)
  case Nil
  then show ?case by simp
next
  case (Cons e es)
  from handle_keeps [OF Cons.prems, of e] obtain s1 where
    s1: "handle e s = Inr s1" "const_width s1 = const_width s" "const_height s1 = const_height s"
      "binary_grid (const_height s1) (const_width s1) (var_grid s1)"
    by blast
  from Cons.IH [OF s1(4)] s1 show ?case by simp
qed

lemma run_snoc:
  "run es s = Inr s1 \<Longrightarrow> run (es @ [e]) s = handle e s1"
  by (induction es arbitrary: s) (auto split: sum.splits)

text \<open>
  C4 as stated fails. In the tick after mounting with one alive cell in the corner, \<open>draw\<close>
  calls \<open>fillRect\<close> for that cell, while the grid its \<open>update\<close> returns has no alive cell:
  drawing that grid would call \<open>clearRect\<close> only.
\<close>

theorem draw_renders_update_output_counterexample:
  "mount True True 15 corner_coin = Some lone_cell
   \<and> draw True True lone_cell
       = Inr (lone_cell\<lparr>ctx_calls := [ClearRect 0 0 15 100, FillStyle ''#E5E4E2'', FillRect 0 0 5 5],
                        var_grid := replicate 20 [0, 0, 0]\<rparr>)
   \<and> render (lone_cell\<lparr>var_grid := replicate 20 [0, 0, 0]\<rparr>) = Inr [ClearRect 0 0 15 100]"
proof -
  have "mount True True 15 corner_coin = Some lone_cell"
    unfolding mount_eq lone_cell_def corner_coin_def by code_simp
  moreover have "draw True True lone_cell
       = Inr (lone_cell\<lparr>ctx_calls := [ClearRect 0 0 15 100, FillStyle ''#E5E4E2'', FillRect 0 0 5 5],
                        var_grid := replicate 20 [0, 0, 0]\<rparr>)"
    by code_simp
  moreover have "render (lone_cell\<lparr>var_grid := replicate 20 [0, 0, 0]\<rparr>) = Inr [ClearRect 0 0 15 100]"
    by code_simp
  ultimately show ?thesis by simp
qed

text \<open>
  C4, amended. A tick with the surface available first draws the grid as it is before the
  tick, calling \<open>fillRect\<close> for exactly the cells alive in it, and only then replaces the grid
  by what \<open>update\<close> returns for it; the calls of the tick are appended to the earlier ones.
\<close>

theorem draw_renders_then_updates:
  assumes "has_dims (const_height s) (const_width s) (var_grid s)"
  shows "\<exists>calls newGrid.
           draw True True s = Inr (s\<lparr>ctx_calls := ctx_calls s @ calls, var_grid := newGrid\<rparr>)
           \<and> render s = Inr calls
           \<and> (\<forall>i < const_height s. \<forall>j < const_width s.
                 FillRect (int j * 5) (int i * 5) 5 5 \<in> set calls \<longleftrightarrow> var_grid s ! i ! j = 1)
           \<and> update (const_height s) (const_width s) (var_grid s) = Inr newGrid"
proof -
  define calls where "calls = ClearRect 0 0 (int (canvas_width s)) (int (canvas_height s))
      # concat (map (row_calls (const_width s) (var_grid s)) [0..<const_height s])"
  define newGrid where "newGrid = map (\<lambda>i. map (next_cell (const_height s) (const_width s)
      (var_grid s) i) [0..<const_width s]) [0..<const_height s]"
  have "draw True True s = Inr (s\<lparr>ctx_calls := ctx_calls s @ calls, var_grid := newGrid\<rparr>)"
    unfolding calls_def newGrid_def by (rule draw_eq [OF assms])
  moreover have "render s = Inr calls"
    unfolding calls_def by (rule render_eq [OF assms])
  moreover have "\<forall>i < const_height s. \<forall>j < const_width s.
      FillRect (int j * 5) (int i * 5) 5 5 \<in> set calls \<longleftrightarrow> var_grid s ! i ! j = 1"
    unfolding calls_def by (intro allI impI) (rule fillRect_in_calls)
  moreover have "update (const_height s) (const_width s) (var_grid s) = Inr newGrid"
    unfolding newGrid_def by (rule update_eq [OF assms])
  ultimately show ?thesis by blast
qed

theorem draw_renders_then_updates_witness:
  "has_dims (const_height lone_cell) (const_width lone_cell) (var_grid lone_cell)
   \<and> (\<exists>calls newGrid.
           draw True True lone_cell
             = Inr (lone_cell\<lparr>ctx_calls := ctx_calls lone_cell @ calls, var_grid := newGrid\<rparr>)
           \<and> render lone_cell = Inr calls
           \<and> (\<forall>i < const_height lone_cell. \<forall>j < const_width lone_cell.
                 FillRect (int j * 5) (int i * 5) 5 5 \<in> set calls \<longleftrightarrow> var_grid lone_cell ! i ! j = 1)
           \<and> update (const_height lone_cell) (const_width lone_cell) (var_grid lone_cell)
               = Inr newGrid)"
proof -
  have d: "has_dims (const_height lone_cell) (const_width lone_cell) (var_grid lone_cell)"
    by code_simp
  show ?thesis using draw_renders_then_updates [OF d] d by blast
qed

text \<open>
  C10. When the canvas or its 2D context is missing, \<open>draw\<close> returns at once: no call is made
  on the context and the grid stays as it is.
\<close>

theorem draw_without_surface:
  assumes "\<not> ctx \<or> \<not> canvas"
  shows "draw canvas ctx s = Inr s"
  using assms by (auto simp add: draw_def)

theorem draw_without_surface_witness:
  "draw True False lone_cell = Inr lone_cell"
  using draw_without_surface [of False True lone_cell] by simp

text \<open>
  C6 as stated fails. Mounting in a window of inner width 0 gives \<open>width = 0\<close> and a grid of 20
  empty rows; nothing clamps the width to 1.
\<close>

theorem mount_positive_dimensions_counterexample:
  "mount True True 0 heads_coin
     = Some \<lparr>canvas_width = 0, canvas_height = 100, const_width = 0, const_height = 20,
              var_grid = replicate 20 [], ctx_calls = []\<rparr>"
  unfolding mount_eq by code_simp

text \<open>
  C6, amended. For every inner width of the window, mounting gives \<open>height = 20\<close> and
  \<open>width = \<lceil>innerWidth / 5\<rceil>\<close>, which is positive exactly when the inner width is, and a
  grid of 0/1 cells with these dimensions.
\<close>

theorem mount_dimensions:
  "\<exists>s. mount True True innerWidth coin = Some s
       \<and> const_height s = 20
       \<and> int (const_width s) = \<lceil>real innerWidth / 5\<rceil>
       \<and> (0 < const_width s \<longleftrightarrow> 0 < innerWidth)
       \<and> binary_grid (const_height s) (const_width s) (var_grid s)"
proof -
  have "int ((innerWidth + 4) div 5) = \<lceil>real innerWidth / 5\<rceil>" by linarith
  moreover have "0 < (innerWidth + 4) div 5 \<longleftrightarrow> 0 < innerWidth" by linarith
  ultimately show ?thesis
    using mount_binary [of innerWidth coin] by (simp add: mount_eq)
qed

theorem mount_dimensions_witness:
  "\<exists>s. mount True True 15 corner_coin = Some s
       \<and> const_height s = 20
       \<and> int (const_width s) = \<lceil>real (15::nat) / 5\<rceil>
       \<and> (0 < const_width s \<longleftrightarrow> 0 < (15::nat))
       \<and> binary_grid (const_height s) (const_width s) (var_grid s)"
  using mount_dimensions [of 15 corner_coin] by simp

text \<open>
  C5 as stated fails. After mounting at inner width 15 (3 columns), a resize to inner width 50
  changes the canvas width only: \<open>width\<close> is still 3 and the rows of the grid still have 3
  cells, not the 10 that the new canvas width divided by the cell size gives.
\<close>

theorem resize_recreates_grid_counterexample:
  "mount True True 15 corner_coin = Some lone_cell
   \<and> handle (Resize 50) lone_cell = Inr (lone_cell\<lparr>canvas_width := 50\<rparr>)
   \<and> const_width (lone_cell\<lparr>canvas_width := 50\<rparr>) = 3
   \<and> length (var_grid (lone_cell\<lparr>canvas_width := 50\<rparr>) ! 0) = 3
   \<and> cells_across 50 = 10"
proof -
  have "mount True True 15 corner_coin = Some lone_cell"
    unfolding mount_eq lone_cell_def corner_coin_def by code_simp
  then show ?thesis
    by (simp add: handle_def updateCanvasSize_def lone_cell_def cells_across_div)
qed

text \<open>
  C5, amended. A resize notification only sets the canvas's width to the window's inner width
  and its height to 100. After any run of ticks and resizes from mounting, \<open>height\<close> is 20,
  \<open>width\<close> is the number of columns computed at mounting, the grid is a grid of 0/1 cells of
  these dimensions, and a further resize leaves all three as they are.
\<close>

theorem resize_keeps_grid:
  assumes "mount True True innerWidth0 coin = Some s0"
  shows "\<exists>s1. run es s0 = Inr s1
           \<and> run (es @ [Resize innerWidth]) s0
               = Inr (s1\<lparr>canvas_width := innerWidth, canvas_height := 100\<rparr>)
           \<and> const_height s1 = 20
           \<and> const_width s1 = cells_across innerWidth0
           \<and> binary_grid 20 (cells_across innerWidth0) (var_grid s1)"
proof -
  from assms have s0: "const_height s0 = 20" "const_width s0 = cells_across innerWidth0"
    "binary_grid (const_height s0) (const_width s0) (var_grid s0)"
    using mount_binary [of innerWidth0 coin] by (auto simp add: mount_eq cells_across_div)
  from run_keeps [OF s0(3), of es] obtain s1 where
    s1: "run es s0 = Inr s1" "const_width s1 = const_width s0" "const_height s1 = const_height s0"
      "binary_grid (const_height s1) (const_width s1) (var_grid s1)"
    by blast
  have "run (es @ [Resize innerWidth]) s0 = Inr (s1\<lparr>canvas_width := innerWidth, canvas_height := 100\<rparr>)"
    using run_snoc [OF s1(1), of "Resize innerWidth"] by (simp add: handle_def updateCanvasSize_def)
  with s0 s1 show ?thesis by simp
qed

theorem resize_keeps_grid_witness:
  "mount True True 15 corner_coin = Some lone_cell
   \<and> (\<exists>s1. run [Tick] lone_cell = Inr s1
           \<and> run ([Tick] @ [Resize 50]) lone_cell
               = Inr (s1\<lparr>canvas_width := 50, canvas_height := 100\<rparr>)
           \<and> const_height s1 = 20
           \<and> const_width s1 = cells_across 15
           \<and> binary_grid 20 (cells_across 15) (var_grid s1))"
proof -
  have m: "mount True True 15 corner_coin = Some lone_cell"
    unfolding mount_eq lone_cell_def corner_coin_def by code_simp
  show ?thesis using resize_keeps_grid [OF m, of "[Tick]" 50] m by simp
qed

section \<open>Properties of update on the store\<close>

lemma array_set_fill:
  assumes "length A = k" "k < n"
  shows "array_set (A @ replicate (n - k) u) k v = (A @ [v]) @ replicate (n - Suc k) u"
proof -
  have "replicate (n - k) u = u # replicate (n - Suc k) u"
    using assms(2) by (simp add: Suc_diff_Suc flip: replicate_Suc)
  with assms(1) show ?thesis by (simp add: array_set_def list_update_append)
qed

lemma new_rows:
  "k \<le> height \<Longrightarrow>
   fold (new_row width (Suc (length h))) [0..<k]
     (h @ [replicate height Null, replicate height Undefined])
   = h @ replicate height Null
       # (map (\<lambda>k. Ref (length h + 2 + k)) [0..<k] @ replicate (height - k) Undefined)
       # replicate k (replicate width (Num 0))"
proof (induction k)
  case 0
  then show ?case by simp
next
  case (Suc k)
  then have k: "k < height" by simp
  define A where "A = map (\<lambda>k. Ref (length h + 2 + k)) [0..<k]"
  define Z where "Z = replicate k (replicate width (Num 0))"
  define hk where "hk = h @ replicate height Null # (A @ replicate (height - k) Undefined) # Z"
  have len: "length hk = length h + 2 + k" by (simp add: hk_def Z_def)
  have at: "hk ! Suc (length h) = A @ replicate (height - k) Undefined"
    by (simp add: hk_def nth_append)
  have "new_row width (Suc (length h)) k hk
      = (hk @ [replicate width (Num 0)])
          [Suc (length h) := (A @ [Ref (length h + 2 + k)]) @ replicate (height - Suc k) Undefined]"
    using k by (simp add: new_row_def at len array_set_fill A_def)
  also have "\<dots> = h @ replicate height Null
       # ((A @ [Ref (length h + 2 + k)]) @ replicate (height - Suc k) Undefined)
       # (Z @ [replicate width (Num 0)])"
    by (simp add: hk_def list_update_append)
  also have "Z @ [replicate width (Num 0)] = replicate (Suc k) (replicate width (Num 0))"
    by (simp add: Z_def replicate_append_same)
  also have "A @ [Ref (length h + 2 + k)] = map (\<lambda>k. Ref (length h + 2 + k)) [0..<Suc k]"
    by (simp add: A_def)
  finally have "new_row width (Suc (length h)) k hk
      = h @ replicate height Null
       # (map (\<lambda>k. Ref (length h + 2 + k)) [0..<Suc k] @ replicate (height - Suc k) Undefined)
       # replicate (Suc k) (replicate width (Num 0))" .
  moreover have "fold (new_row width (Suc (length h))) [0..<k]
     (h @ [replicate height Null, replicate height Undefined]) = hk"
    using Suc k by (simp add: hk_def A_def Z_def)
  ultimately show ?case by simp
qed

lemma new_grid_eq:
  "new_grid height width h
     = (extended h height (replicate height (replicate width (Num 0))), Suc (length h))"
  using new_rows [of height height width h] by (simp add: new_grid_def extended_def Let_def)

lemma ref_case:
  "(case v of Ref a \<Rightarrow> P a | _ \<Rightarrow> False) \<longleftrightarrow> (\<exists>a. v = Ref a \<and> P a)"
  by (cases v) simp_all

lemma holds_iff:
  "holds h g grid \<longleftrightarrow>
     g < length h \<and> length (h ! g) = length grid \<and>
     (\<forall>i < length grid. \<exists>a. h ! g ! i = Ref a \<and> a < length h \<and> h ! a = map Num (grid ! i))"
  unfolding holds_def list_all2_conv_all_nth ref_case by auto

lemma holds_append:
  assumes "holds h g grid"
  shows "holds (h @ h') g grid"
proof -
  from assms have g: "g < length h" and len: "length (h ! g) = length grid"
    and rows: "\<And>i. i < length grid \<Longrightarrow>
                 \<exists>a. h ! g ! i = Ref a \<and> a < length h \<and> h ! a = map Num (grid ! i)"
    unfolding holds_iff by blast+
  have "\<exists>a. (h @ h') ! g ! i = Ref a \<and> a < length (h @ h') \<and> (h @ h') ! a = map Num (grid ! i)"
    if "i < length grid" for i
  proof -
    from rows [OF that] obtain a where "h ! g ! i = Ref a" "a < length h"
      "h ! a = map Num (grid ! i)" by blast
    with g show ?thesis by (simp add: nth_append)
  qed
  with g len show ?thesis unfolding holds_iff by (simp add: nth_append)
qed

lemma load_holds:
  assumes "holds h g grid"
  shows "load h g r c = cell grid r c"
proof -
  from assms have g: "g < length h" and len: "length (h ! g) = length grid"
    and rows: "\<And>i. i < length grid \<Longrightarrow>
                 \<exists>a. h ! g ! i = Ref a \<and> a < length h \<and> h ! a = map Num (grid ! i)"
    unfolding holds_iff by blast+
  show ?thesis
  proof (cases "0 \<le> r \<and> nat r < length grid")
    case True
    with rows [of "nat r"] obtain a where "h ! g ! nat r = Ref a" "a < length h"
      "h ! a = map Num (grid ! nat r)" by blast
    with True g len show ?thesis by (simp add: load_def cell_def)
  next
    case False
    then have "load h g r c = Inl TypeError" "cell grid r c = Inl TypeError"
      using len by (auto simp add: load_def cell_def)
    then show ?thesis by simp
  qed
qed

lemma store_cell_extended:
  assumes "i < height" "i < length rows"
  shows "store_cell (extended h height rows) (Suc (length h)) i j v
           = Inr (extended h height (rows[i := array_set (rows ! i) j (Num v)]))"
  using assms by (simp add: store_cell_def extended_def nth_append list_update_append)

lemma fold_with_rows:
  assumes "\<And>x acc. x \<in> set xs \<Longrightarrow> sized height width acc \<Longrightarrow>
             fs x (with_rows h height acc) = with_rows h height (f x acc)
             \<and> sized height width (f x acc)"
  shows "sized height width acc \<Longrightarrow>
         fold fs xs (with_rows h height acc) = with_rows h height (fold f xs acc)
         \<and> sized height width (fold f xs acc)"
  using assms
proof (induction xs arbitrary: acc)
  case Nil
  then show ?case by simp
next
  case (Cons x xs)
  have step: "fs x (with_rows h height acc) = with_rows h height (f x acc)"
    "sized height width (f x acc)"
    using Cons.prems(2) [of x acc] Cons.prems(1) by simp_all
  have "fold fs xs (with_rows h height (f x acc)) = with_rows h height (fold f xs (f x acc))
         \<and> sized height width (fold f xs (f x acc))"
    using step(2) Cons.prems(2) by (intro Cons.IH) simp_all
  with step(1) show ?case by simp
qed

lemma set_cell_dims:
  "has_dims height width newGrid \<Longrightarrow> has_dims height width (set_cell newGrid i j v)"
  unfolding has_dims_def set_cell_def list_all_length
  by (cases "i < length newGrid") (auto simp add: nth_list_update)

lemma update_cell_s_sim:
  assumes "holds h g grid" "has_dims height width grid" "i < height" "j < width"
    "sized height width acc"
  shows "update_cell_s height width g (Suc (length h)) i j (with_rows h height acc)
           = with_rows h height (update_cell height width grid i j acc)
         \<and> sized height width (update_cell height width grid i j acc)"
proof (cases acc)
  case (Inl e)
  then show ?thesis by (simp add: update_cell_s_def update_cell_def with_rows_def sized_def)
next
  case (Inr newGrid)
  define rows where "rows = map (map Num) newGrid"
  define v where "v = next_cell height width grid i j"
  from assms(5) Inr have d: "has_dims height width newGrid" by (simp add: sized_def)
  then have i: "i < length newGrid" and j: "j < length (newGrid ! i)"
    using assms(3,4) has_dims_nth [OF d assms(3)] by (simp_all add: has_dims_def)
  have rd: "load (extended h height rows) g = cell grid"
    using load_holds [OF holds_append [OF assms(1)]] unfolding extended_def by blast
  have val: "update_cell height width grid i j (Inr newGrid) = Inr (set_cell newGrid i j v)"
    unfolding v_def by (rule update_cell_ok [OF assms(2,3,4)])
  have cnt: "count_loop (cell grid) height width (int i) (int j)
      = Inr (live_around height width grid (int i) (int j))"
    using countAliveNeighbors_live_around [OF assms(2)] by (simp add: countAliveNeighbors_def)
  have cur: "cell grid (int i) (int j) = Inr (grid ! i ! j)"
    using cell_in_bounds [OF assms(2), of "int i" "int j"] assms(3,4) by simp
  have "update_cell_s height width g (Suc (length h)) i j (Inr (extended h height rows))
      = store_cell (extended h height rows) (Suc (length h)) i j v"
    by (simp add: update_cell_s_def rd cnt cur v_def next_cell_def)
  also have "\<dots> = Inr (extended h height (rows[i := array_set (rows ! i) j (Num v)]))"
    using i assms(3) by (intro store_cell_extended) (simp_all add: rows_def)
  also have "rows[i := array_set (rows ! i) j (Num v)] = map (map Num) (set_cell newGrid i j v)"
    using i j by (simp add: rows_def set_cell_def array_set_def map_update)
  finally show ?thesis
    using Inr val set_cell_dims [OF d, of i j v]
    by (simp add: with_rows_def sized_def rows_def)
qed

lemma update_s_eq:
  assumes "holds h g grid" "has_dims height width grid"
  shows "update_s height width h g
     = Inr (extended h height
              (map (map Num) (map (\<lambda>i. map (next_cell height width grid i) [0..<width]) [0..<height])),
            Suc (length h))"
proof -
  let ?init = "Inr (replicate height (replicate width 0)) :: fault + grid"
  have init: "sized height width ?init"
    by (simp add: sized_def has_dims_def list_all_length)
  have row: "fold (update_cell_s height width g (Suc (length h)) i) [0..<width] (with_rows h height acc)
        = with_rows h height (fold (update_cell height width grid i) [0..<width] acc)
      \<and> sized height width (fold (update_cell height width grid i) [0..<width] acc)"
    if "i \<in> set [0..<height]" "sized height width acc" for i acc
    using that(2)
  proof (rule fold_with_rows [rotated])
    fix j acc'
    assume "j \<in> set [0..<width]" "sized height width acc'"
    then show "update_cell_s height width g (Suc (length h)) i j (with_rows h height acc')
        = with_rows h height (update_cell height width grid i j acc')
      \<and> sized height width (update_cell height width grid i j acc')"
      using that(1) by (intro update_cell_s_sim [OF assms]) simp_all
  qed
  have "fold (\<lambda>i. fold (update_cell_s height width g (Suc (length h)) i) [0..<width]) [0..<height]
          (with_rows h height ?init)
        = with_rows h height (update height width grid)"
    unfolding update_def
    using fold_with_rows [of "[0..<height]" height width
        "\<lambda>i. fold (update_cell_s height width g (Suc (length h)) i) [0..<width]" h
        "\<lambda>i. fold (update_cell height width grid i) [0..<width]" ?init, OF row init]
    by simp
  moreover have "with_rows h height ?init
      = Inr (extended h height (replicate height (replicate width (Num 0))))"
    by (simp add: with_rows_def)
  ultimately show ?thesis
    by (simp add: update_s_def new_grid_eq update_eq [OF assms(2)] with_rows_def)
qed

lemma holds_extended_new:
  assumes "length newGrid = height"
  shows "holds (extended h height (map (map Num) newGrid)) (Suc (length h)) newGrid"
proof -
  let ?h' = "extended h height (map (map Num) newGrid)"
  have len: "length ?h' = length h + 2 + height" using assms by (simp add: extended_def)
  have refs: "?h' ! Suc (length h) = map (\<lambda>k. Ref (length h + 2 + k)) [0..<height]"
    by (simp add: extended_def nth_append)
  have row: "?h' ! (length h + 2 + i) = map Num (newGrid ! i)" if "i < height" for i
    using that assms by (simp add: extended_def nth_append)
  show ?thesis
    unfolding holds_iff refs using assms len row by simp
qed

lemma take_extended: "take (length h) (extended h height rows) = h"
  by (simp add: extended_def)

text \<open>
  C3. When the store holds a grid with the closure's dimensions at \<open>g\<close>, \<open>update\<close> returns a
  reference to an array allocated during the call, whose rows are distinct arrays allocated
  during the call; every array that was in the store before the call, so the input grid and
  each of its rows, is in the store after the call with the same contents; and the new array
  holds a grid of the same dimensions, the one the value-level \<open>update\<close> computes.
\<close>

theorem update_s_leaves_input:
  assumes "holds h g grid" "has_dims height width grid"
  shows "\<exists>h' ng newGrid.
           update_s height width h g = Inr (h', ng)
           \<and> take (length h) h' = h
           \<and> holds h' g grid
           \<and> length h \<le> ng
           \<and> (\<forall>i < height. \<exists>a. h' ! ng ! i = Ref a \<and> length h \<le> a)
           \<and> distinct (h' ! ng)
           \<and> update height width grid = Inr newGrid
           \<and> has_dims height width newGrid
           \<and> holds h' ng newGrid"
proof -
  define newGrid where
    "newGrid = map (\<lambda>i. map (next_cell height width grid i) [0..<width]) [0..<height]"
  define h' where "h' = extended h height (map (map Num) newGrid)"
  have len: "length newGrid = height" by (simp add: newGrid_def)
  have refs: "h' ! Suc (length h) = map (\<lambda>k. Ref (length h + 2 + k)) [0..<height]"
    by (simp add: h'_def extended_def nth_append)
  have "update_s height width h g = Inr (h', Suc (length h))"
    unfolding h'_def newGrid_def by (rule update_s_eq [OF assms])
  moreover have "take (length h) h' = h"
    unfolding h'_def by (rule take_extended)
  moreover have "holds h' g grid"
    unfolding h'_def extended_def by (rule holds_append [OF assms(1)])
  moreover have "\<forall>i < height. \<exists>a. h' ! Suc (length h) ! i = Ref a \<and> length h \<le> a"
    by (simp add: refs)
  moreover have "distinct (h' ! Suc (length h))"
    by (simp add: refs distinct_map inj_on_def)
  moreover have "update height width grid = Inr newGrid"
    unfolding newGrid_def by (rule update_eq [OF assms(2)])
  moreover have "has_dims height width newGrid"
    by (simp add: newGrid_def has_dims_def list_all_length)
  moreover have "holds h' (Suc (length h)) newGrid"
    unfolding h'_def by (rule holds_extended_new [OF len])
  ultimately show ?thesis by (intro exI [of _ h'] exI [of _ "Suc (length h)"] exI [of _ newGrid]) simp
qed

theorem update_s_leaves_input_witness:
  "holds sample_store 0 [[0, 1, 0], [0, 1, 0], [0, 1, 0]]
   \<and> has_dims 3 3 [[0, 1, 0], [0, 1, 0], [0, 1, 0]]
   \<and> update_s 3 3 sample_store 0
       = Inr (sample_store @ [[Null, Null, Null], [Ref 6, Ref 7, Ref 8],
                [Num 0, Num 0, Num 0], [Num 1, Num 1, Num 1], [Num 0, Num 0, Num 0]], 5)
   \<and> (\<exists>h' ng newGrid.
           update_s 3 3 sample_store 0 = Inr (h', ng)
           \<and> take (length sample_store) h' = sample_store
           \<and> holds h' 0 [[0, 1, 0], [0, 1, 0], [0, 1, 0]]
           \<and> length sample_store \<le> ng
           \<and> (\<forall>i < 3. \<exists>a. h' ! ng ! i = Ref a \<and> length sample_store \<le> a)
           \<and> distinct (h' ! ng)
           \<and> update 3 3 [[0, 1, 0], [0, 1, 0], [0, 1, 0]] = Inr newGrid
           \<and> has_dims 3 3 newGrid
           \<and> holds h' ng newGrid)"
proof -
  have a: "holds sample_store 0 [[0, 1, 0], [0, 1, 0], [0, 1, 0]]" by code_simp
  have b: "has_dims 3 3 [[0, 1, 0], [0, 1, 0], [0, 1, 0]]" by code_simp
  have c: "update_s 3 3 sample_store 0
       = Inr (sample_store @ [[Null, Null, Null], [Ref 6, Ref 7, Ref 8],
                [Num 0, Num 0, Num 0], [Num 1, Num 1, Num 1], [Num 0, Num 0, Num 0]], 5)"
    by code_simp
  show ?thesis using update_s_leaves_input [OF a b] a b c by blast
qed

end
